theory Spec2Isabelle
  imports Main "HOL-Library.AList"
begin

section \<open>The snapshot broadcast hub of \<^verbatim>\<open>modules/http.py\<close>\<close>

text \<open>
  The module holds one \<^verbatim>\<open>WebsocketHandler\<close> (a list of pending updates and a set of
  connected websockets), a websocket server whose per-connection handler runs a read loop
  (\<^verbatim>\<open>consumer_handler\<close>) and a broadcast loop (\<^verbatim>\<open>producer_handler\<close>), and a Flask
  server. What the snapshots contain is computed by other modules; those collaborators are
  a parameter of the model.
\<close>

subsection \<open>Exceptions, JSON values and messages\<close>

text \<open>
  Python exceptions are values. \<open>CancelledError\<close> stands for the exceptions that derive
  from \<^verbatim>\<open>BaseException\<close> only, which \<^verbatim>\<open>except Exception\<close> does not catch;
  \<open>ConnectionClosed\<close> is \<^verbatim>\<open>websockets.ConnectionClosed\<close> (and its subclasses);
  \<open>OtherError\<close> is any other subclass of \<^verbatim>\<open>Exception\<close>, by its name.
\<close>

datatype exn =
    KeyError
  | AttributeError
  | RuntimeError
  | ConnectionClosed
  | OtherError string
  | CancelledError

fun is_Exception :: "exn \<Rightarrow> bool" where
  "is_Exception CancelledError = False"
| "is_Exception _ = True"

datatype json =
    JNull
  | JBool bool
  | JNum int
  | JStr string
  | JArr "json list"
  | JObj "(string \<times> json) list"

text \<open>
  \<^verbatim>\<open>prep_data(data, type)\<close> returns \<^verbatim>\<open>json.dumps({"type": type, "data": data})\<close>. The
  model keeps the two fields that the text is rendered from.
\<close>

record message =
  mtype :: string
  mdata :: json

definition prep_data :: "json \<Rightarrow> string \<Rightarrow> message" where
  "prep_data data type = \<lparr>mtype = type, mdata = data\<rparr>"

subsection \<open>The external collaborators\<close>

text \<open>
  What the imported modules return at the instant of a call (\<^verbatim>\<open>trainer.to_dict()\<close>,
  \<^verbatim>\<open>get_game_state().name\<close>, \<^verbatim>\<open>get_items()\<close>, the party's \<^verbatim>\<open>to_dict()\<close>s,
  \<^verbatim>\<open>total_stats\<close>, \<^verbatim>\<open>request.args.get("flag")\<close>, \<^verbatim>\<open>_event_flags\<close>,
  \<^verbatim>\<open>get_event_flag\<close>, \<^verbatim>\<open>context\<close>): a value, or the exception the call raises.
\<close>

record env =
  ext_trainer_to_dict :: "exn + (string \<times> json) list"
  ext_game_state_name :: "exn + string"
  ext_get_items :: "exn + json"
  ext_get_party :: "exn + json list"
  ext_encounter_log :: "exn + json"
  ext_shiny_log :: "exn + json"
  ext_encounter_rate :: "exn + json"
  ext_total_stats :: "exn + json"
  ext_request_flag :: "exn + string option"
  ext_event_flags :: "string list"
  ext_get_event_flag :: "string \<Rightarrow> exn + json"
  ext_emulator_is_None :: bool
  ext_context_to_dict :: "exn + json"
  ext_fps_history :: "exn + json list"

text \<open>Sequencing of calls that may raise: the first exception leaves the function.\<close>

definition and_then :: "exn + 'a \<Rightarrow> ('a \<Rightarrow> exn + 'b) \<Rightarrow> exn + 'b" where
  "and_then r f = (case r of Inl e \<Rightarrow> Inl e | Inr x \<Rightarrow> f x)"

subsection \<open>The snapshot producers of \<^verbatim>\<open>WebsocketHandler\<close>\<close>

definition get_trainer :: "env \<Rightarrow> exn + message" where
  "get_trainer env =
     and_then (ext_trainer_to_dict env) (\<lambda>data.
     and_then (ext_game_state_name env) (\<lambda>name.
       Inr (prep_data (JObj (AList.update ''game_state'' (JStr name) data)) ''trainer'')))"

definition get_encounter_log :: "env \<Rightarrow> exn + message" where
  "get_encounter_log env =
     and_then (ext_encounter_log env) (\<lambda>d. Inr (prep_data d ''encounter_log''))"

definition get_items :: "env \<Rightarrow> exn + message" where
  "get_items env = and_then (ext_get_items env) (\<lambda>d. Inr (prep_data d ''items''))"

definition get_party :: "env \<Rightarrow> exn + message" where
  "get_party env = and_then (ext_get_party env) (\<lambda>ps. Inr (prep_data (JArr ps) ''party''))"

definition get_shiny_log :: "env \<Rightarrow> exn + message" where
  "get_shiny_log env = and_then (ext_shiny_log env) (\<lambda>d. Inr (prep_data d ''shiny_log''))"

definition get_encounter_rate :: "env \<Rightarrow> exn + message" where
  "get_encounter_rate env =
     and_then (ext_encounter_rate env) (\<lambda>d.
       Inr (prep_data (JObj [(''encounter_rate'', d)]) ''encounter_rate''))"

definition get_stats :: "env \<Rightarrow> exn + message" where
  "get_stats env = and_then (ext_total_stats env) (\<lambda>d. Inr (prep_data d ''stats''))"

text \<open>
  The loop \<^verbatim>\<open>for flag in _event_flags: result[flag] = get_event_flag(flag)\<close>, on the
  dictionary built so far.
\<close>

fun all_event_flags :: "env \<Rightarrow> string list \<Rightarrow> (string \<times> json) list \<Rightarrow> exn + (string \<times> json) list" where
  "all_event_flags env [] result = Inr result"
| "all_event_flags env (flag # flags) result =
     and_then (ext_get_event_flag env flag) (\<lambda>v.
       all_event_flags env flags (AList.update flag v result))"

definition get_event_flags :: "env \<Rightarrow> exn + message" where
  "get_event_flags env =
     and_then (ext_request_flag env) (\<lambda>flag.
       (case flag of
          Some f \<Rightarrow>
            if f \<noteq> [] \<and> f \<in> set (ext_event_flags env)
            then and_then (ext_get_event_flag env f) (\<lambda>v. Inr (prep_data (JObj [(f, v)]) ''flags''))
            else and_then (all_event_flags env (ext_event_flags env) [])
                   (\<lambda>result. Inr (prep_data (JObj result) ''flags''))
        | None \<Rightarrow>
            and_then (all_event_flags env (ext_event_flags env) [])
              (\<lambda>result. Inr (prep_data (JObj result) ''flags''))))"

definition get_emulator :: "env \<Rightarrow> exn + message" where
  "get_emulator env =
     (if ext_emulator_is_None env then Inr (prep_data JNull ''emulator'')
      else and_then (ext_context_to_dict env) (\<lambda>d. Inr (prep_data d ''emulator'')))"

definition get_fps :: "env \<Rightarrow> exn + message" where
  "get_fps env =
     (if ext_emulator_is_None env then Inr (prep_data JNull ''fps'')
      else and_then (ext_fps_history env) (\<lambda>hist. Inr (prep_data (JArr (rev hist)) ''fps'')))"

subsection \<open>\<^verbatim>\<open>WebsocketHandler\<close>: the update queue and the client set\<close>

text \<open>
  \<^verbatim>\<open>self.updates\<close> is a list whose entries are the producers' messages or \<^verbatim>\<open>None\<close>;
  \<^verbatim>\<open>self.clients\<close> is a set of websockets (opaque handles of type \<open>'c\<close>).
\<close>

record 'c hub =
  updates :: "message option list"
  clients :: "'c set"

text \<open>
  The \<^verbatim>\<open>match type\<close> of \<^verbatim>\<open>add_update\<close>, case by case in the source's order: the
  literal and the producer whose result the case appends.
\<close>

definition update_cases :: "(string \<times> (env \<Rightarrow> exn + message)) list" where
  "update_cases =
     [(''encounter_log'', get_encounter_log),
      (''encounter_rate'', get_encounter_rate),
      (''emulator'', get_emulator),
      (''party'', get_party),
      (''fps'', get_fps),
      (''event_flags'', get_event_flags),
      (''items'', get_items),
      (''shiny'', get_shiny_log),
      (''stats'', get_stats),
      (''trainer'', get_trainer)]"

text \<open>
  \<^verbatim>\<open>add_update\<close>: the producer runs before \<^verbatim>\<open>append\<close>, so an exception of the producer
  leaves the list as it was; \<^verbatim>\<open>case _\<close> appends \<^verbatim>\<open>None\<close>. The result is what the call
  raises, if anything, and the handler after it.
\<close>

definition add_update :: "env \<Rightarrow> string \<Rightarrow> 'c hub \<Rightarrow> (exn + unit) \<times> 'c hub" where
  "add_update env type h =
     (case map_of update_cases type of
        Some producer \<Rightarrow>
          (case producer env of
             Inl e \<Rightarrow> (Inl e, h)
           | Inr m \<Rightarrow> (Inr (), h\<lparr>updates := updates h @ [Some m]\<rparr>))
      | None \<Rightarrow> (Inr (), h\<lparr>updates := updates h @ [None]\<rparr>))"

text \<open>
  \<^verbatim>\<open>get_updates\<close>: \<^verbatim>\<open>while self.updates: updates_list.append(self.updates.pop())\<close>.
  \<^verbatim>\<open>pop()\<close> takes the last element.
\<close>

function get_updates_loop :: "'a list \<Rightarrow> 'a list \<Rightarrow> 'a list \<times> 'a list" where
  "get_updates_loop us updates_list =
     (if us \<noteq> [] then get_updates_loop (butlast us) (updates_list @ [last us])
      else (us, updates_list))"
  by pat_completeness auto
termination
  by (relation "measure (\<lambda>(us, updates_list). length us)") auto

declare get_updates_loop.simps [simp del]

definition get_updates :: "'c hub \<Rightarrow> message option list \<times> 'c hub" where
  "get_updates h =
     (case get_updates_loop (updates h) [] of
        (us, updates_list) \<Rightarrow> (updates_list, h\<lparr>updates := us\<rparr>))"

definition add_client :: "'c \<Rightarrow> 'c hub \<Rightarrow> 'c hub" where
  "add_client websocket h = h\<lparr>clients := insert websocket (clients h)\<rparr>"

text \<open>\<^verbatim>\<open>set.remove\<close> raises \<^verbatim>\<open>KeyError\<close> when the element is not in the set.\<close>

definition remove_client :: "'c \<Rightarrow> 'c hub \<Rightarrow> (exn + unit) \<times> 'c hub" where
  "remove_client websocket h =
     (if websocket \<in> clients h then (Inr (), h\<lparr>clients := clients h - {websocket}\<rparr>)
      else (Inl KeyError, h))"

definition get_clients :: "'c hub \<Rightarrow> 'c set" where
  "get_clients h = clients h"

subsection \<open>The websocket transport\<close>

text \<open>
  The transport is the environment's: from the state \<open>'w\<close> of the network a write to a
  client either returns or raises, and the network moves on. A record of the writes keeps,
  for every call of the transport, the client, the message and the outcome.
\<close>

type_synonym ('c, 'w) transport = "'w \<Rightarrow> 'c \<Rightarrow> message \<Rightarrow> (exn + unit) \<times> 'w"

type_synonym 'c attempt = "'c \<times> message \<times> (exn + unit)"

text \<open>
  \<^verbatim>\<open>await websocket.send(message)\<close>: the one place where the transport is called. It
  hands on what the transport returned or raised, the network as the transport left it, and
  the record extended by this write.
\<close>

definition websocket_send ::
  "('c, 'w) transport \<Rightarrow> 'c \<Rightarrow> message \<Rightarrow> 'w \<Rightarrow> 'c attempt list \<Rightarrow> (exn + unit) \<times> 'w \<times> 'c attempt list" where
  "websocket_send ws_send websocket message w tr =
     (case ws_send w websocket message of
        (outcome, w') \<Rightarrow> (outcome, w', tr @ [(websocket, message, outcome)]))"

text \<open>\<^verbatim>\<open>send\<close>: only \<^verbatim>\<open>websockets.ConnectionClosed\<close> is caught, and passed over.\<close>

definition send ::
  "('c, 'w) transport \<Rightarrow> 'c \<Rightarrow> message \<Rightarrow> 'w \<Rightarrow> 'c attempt list \<Rightarrow> (exn + unit) \<times> 'w \<times> 'c attempt list" where
  "send ws_send websocket message w tr =
     (case websocket_send ws_send websocket message w tr of
        (Inl e, w', tr') \<Rightarrow> if e = ConnectionClosed then (Inr (), w', tr') else (Inl e, w', tr')
      | (Inr u, w', tr') \<Rightarrow> (Inr (), w', tr'))"

subsection \<open>\<^verbatim>\<open>producer_handler\<close>: one tick of the broadcast loop\<close>

text \<open>
  \<^verbatim>\<open>for client in websocket_handler.get_clients(): await asyncio.create_task(send(client, message))\<close>,
  over the clients in the order the set is iterated in. Awaiting the task re-raises what
  \<^verbatim>\<open>send\<close> raised, which leaves the loops.
\<close>

fun send_to_clients ::
  "('c, 'w) transport \<Rightarrow> 'c list \<Rightarrow> message \<Rightarrow> 'w \<Rightarrow> 'c attempt list \<Rightarrow> (exn + unit) \<times> 'w \<times> 'c attempt list" where
  "send_to_clients ws_send [] message w tr = (Inr (), w, tr)"
| "send_to_clients ws_send (client # cs) message w tr =
     (case send ws_send client message w tr of
        (Inl e, w', tr') \<Rightarrow> (Inl e, w', tr')
      | (Inr u, w', tr') \<Rightarrow> send_to_clients ws_send cs message w' tr')"

text \<open>The body of the inner \<^verbatim>\<open>while\<close> for one popped entry: \<^verbatim>\<open>if message != None: for ...\<close>.\<close>

definition deliver ::
  "('c, 'w) transport \<Rightarrow> 'c list \<Rightarrow> message option \<Rightarrow> 'w \<Rightarrow> 'c attempt list \<Rightarrow> (exn + unit) \<times> 'w \<times> 'c attempt list" where
  "deliver ws_send cs message w tr =
     (case message of
        None \<Rightarrow> (Inr (), w, tr)
      | Some m \<Rightarrow> send_to_clients ws_send cs m w tr)"

text \<open>\<^verbatim>\<open>while messages: message = messages.pop(); ...\<close>\<close>

function producer_loop ::
  "('c, 'w) transport \<Rightarrow> 'c list \<Rightarrow> message option list \<Rightarrow> 'w \<Rightarrow> 'c attempt list \<Rightarrow> (exn + unit) \<times> 'w \<times> 'c attempt list" where
  "producer_loop ws_send cs messages w tr =
     (if messages \<noteq> [] then
        (case deliver ws_send cs (last messages) w tr of
           (Inl e, w', tr') \<Rightarrow> (Inl e, w', tr')
         | (Inr u, w', tr') \<Rightarrow> producer_loop ws_send cs (butlast messages) w' tr')
      else (Inr (), w, tr))"
  by pat_completeness auto
termination
  by (relation "measure (\<lambda>(ws_send, cs, messages, w, tr). length messages)") auto

declare producer_loop.simps [simp del]

text \<open>
  One pass of the body of \<^verbatim>\<open>while True\<close> after the sleep. Python iterates a set in an
  order of its own; \<open>set_iter\<close> is that order. The handler repeats the pass after every
  sleep for as long as no exception leaves it.
\<close>

definition producer_tick ::
  "('c set \<Rightarrow> 'c list) \<Rightarrow> ('c, 'w) transport \<Rightarrow> 'c hub \<Rightarrow> 'w \<Rightarrow> ((exn + unit) \<times> 'w \<times> 'c attempt list) \<times> 'c hub" where
  "producer_tick set_iter ws_send h w =
     (case get_updates h of
        (messages, h') \<Rightarrow> (producer_loop ws_send (set_iter (get_clients h')) messages w [], h'))"

subsection \<open>\<^verbatim>\<open>consumer_handler\<close>: the read loop of one connection\<close>

text \<open>
  \<^verbatim>\<open>message.lower()\<close>. A text frame is modelled as a list of 8-bit characters, of which
  \<^verbatim>\<open>A\<close> to \<^verbatim>\<open>Z\<close> have a lower case. (Python also lowers letters beyond ASCII; the only
  one that lowers into ASCII is the Kelvin sign, to \<^verbatim>\<open>k\<close>, a letter no command has.)
\<close>

definition lower_char :: "char \<Rightarrow> char" where
  "lower_char c =
     (let n = (of_char c :: nat) in if 65 \<le> n \<and> n \<le> 90 then char_of (n + 32) else c)"

definition lower :: "string \<Rightarrow> string" where
  "lower s = map lower_char s"

text \<open>
  The \<^verbatim>\<open>match message\<close> of the read loop, case by case in the source's order: the
  alternatives of the pattern and the producer whose result the case sends.
\<close>

definition consumer_cases :: "(string list \<times> (env \<Rightarrow> exn + message)) list" where
  "consumer_cases =
     [([''trainer'', ''tr''], get_trainer),
      ([''encounter_log'', ''el'', ''enc log''], get_encounter_log),
      ([''items'', ''it'', ''bag'', ''bg''], get_items),
      ([''emulator'', ''em'', ''emu''], get_emulator),
      ([''party'', ''pa''], get_party),
      ([''shiny'', ''sh'', ''shy''], get_shiny_log),
      ([''stats'', ''st''], get_stats),
      ([''encounter_rate'', ''er'', ''enc rate''], get_encounter_rate),
      ([''fps''], get_fps),
      ([''flags'', ''event_flags'', ''ef'', ''ev fl'', ''fl''], get_event_flags)]"

text \<open>
  The names an instance of \<^verbatim>\<open>WebsocketHandler\<close> has: the two attributes set by
  \<^verbatim>\<open>__init__\<close> and the methods of the class. \<^verbatim>\<open>prep_data\<close> is a function of the module,
  not of the class.
\<close>

definition WebsocketHandler_attributes :: "string list" where
  "WebsocketHandler_attributes =
     [''updates'', ''clients'', ''add_update'', ''get_updates'', ''add_client'',
      ''remove_client'', ''get_clients'', ''get_trainer'', ''get_encounter_log'', ''get_items'',
      ''get_party'', ''get_shiny_log'', ''get_encounter_rate'', ''get_stats'',
      ''get_event_flags'', ''get_emulator'', ''get_fps'']"

text \<open>
  \<^verbatim>\<open>case _\<close>: the argument of \<^verbatim>\<open>websocket.send\<close> is
  \<^verbatim>\<open>websocket_handler.prep_data(f"unknown message: {message}", "unknown")\<close>, an attribute
  lookup on the handler instance, which raises \<^verbatim>\<open>AttributeError\<close> for a name the
  instance does not have.
\<close>

definition unknown_reply :: "string \<Rightarrow> exn + message" where
  "unknown_reply message =
     (if ''prep_data'' \<in> set WebsocketHandler_attributes
      then Inr (prep_data (JStr (''unknown message: '' @ message)) ''unknown'')
      else Inl AttributeError)"

definition consumer_match :: "env \<Rightarrow> string \<Rightarrow> exn + message" where
  "consumer_match env message =
     (case find (\<lambda>(alternatives, producer). message \<in> set alternatives) consumer_cases of
        Some (alternatives, producer) \<Rightarrow> producer env
      | None \<Rightarrow> unknown_reply message)"

text \<open>
  The \<^verbatim>\<open>while True\<close> of the read loop only ends by an exception. The connection's
  input is the list of the frames received, each with the collaborators' state when it is
  handled; after the last one \<^verbatim>\<open>recv\<close> raises \<open>closing\<close>. The reply is written with
  \<^verbatim>\<open>websocket.send\<close> itself, so any exception of the write leaves the loop too.
\<close>

fun consumer_loop ::
  "('c, 'w) transport \<Rightarrow> 'c \<Rightarrow> (env \<times> string) list \<Rightarrow> exn \<Rightarrow> 'w \<Rightarrow> 'c attempt list \<Rightarrow> exn \<times> 'w \<times> 'c attempt list" where
  "consumer_loop ws_send websocket [] closing w tr = (closing, w, tr)"
| "consumer_loop ws_send websocket ((env, raw) # rest) closing w tr =
     (case consumer_match env (lower raw) of
        Inl e \<Rightarrow> (e, w, tr)
      | Inr reply \<Rightarrow>
          (case websocket_send ws_send websocket reply w tr of
             (Inl e, w', tr') \<Rightarrow> (e, w', tr')
           | (Inr u, w', tr') \<Rightarrow> consumer_loop ws_send websocket rest closing w' tr'))"

text \<open>
  \<^verbatim>\<open>add_client\<close>, the loop under \<^verbatim>\<open>try\<close>, \<^verbatim>\<open>except Exception: pass\<close>, and
  \<^verbatim>\<open>remove_client\<close> under \<^verbatim>\<open>finally\<close>. An exception of the \<^verbatim>\<open>finally\<close> block replaces
  the one in flight.
\<close>

definition consumer_handler ::
  "('c, 'w) transport \<Rightarrow> 'c \<Rightarrow> (env \<times> string) list \<Rightarrow> exn \<Rightarrow> 'c hub \<Rightarrow> 'w \<Rightarrow> ((exn + unit) \<times> 'w \<times> 'c attempt list) \<times> 'c hub" where
  "consumer_handler ws_send websocket inbound closing h w =
     (let h1 = add_client websocket h in
      case consumer_loop ws_send websocket inbound closing w [] of
        (e, w', tr) \<Rightarrow>
          (case remove_client websocket h1 of
             (Inl k, h2) \<Rightarrow> ((Inl k, w', tr), h2)
           | (Inr u, h2) \<Rightarrow> ((if is_Exception e then Inr () else Inl e, w', tr), h2)))"

subsection \<open>The pull endpoint \<^verbatim>\<open>/trainer\<close>\<close>

text \<open>
  \<^verbatim>\<open>http_get_trainer\<close> builds the same dictionary as \<^verbatim>\<open>get_trainer\<close> and returns it
  bare, through \<^verbatim>\<open>jsonify\<close>. It is given the handler to show what it leaves of it.
\<close>

definition http_get_trainer :: "env \<Rightarrow> 'c hub \<Rightarrow> (exn + json) \<times> 'c hub" where
  "http_get_trainer env h =
     (and_then (ext_trainer_to_dict env) (\<lambda>data.
      and_then (ext_game_state_name env) (\<lambda>name.
        Inr (JObj (AList.update ''game_state'' (JStr name) data)))),
      h)"

subsection \<open>The explicit FIFO buffer of the specification\<close>

text \<open>
  Following the specification's words rather than the code: \<open>drainAll\<close> removes and returns
  every queued entry in the order of insertion and leaves the queue empty, and a tick handles
  the drained entries from the first to the last.
\<close>

definition drainAll :: "'c hub \<Rightarrow> message option list \<times> 'c hub" where
  "drainAll h = (updates h, h\<lparr>updates := []\<rparr>)"

fun fifo_deliver ::
  "('c, 'w) transport \<Rightarrow> 'c list \<Rightarrow> message option list \<Rightarrow> 'w \<Rightarrow> 'c attempt list \<Rightarrow> (exn + unit) \<times> 'w \<times> 'c attempt list" where
  "fifo_deliver ws_send cs [] w tr = (Inr (), w, tr)"
| "fifo_deliver ws_send cs (message # queue) w tr =
     (case deliver ws_send cs message w tr of
        (Inl e, w', tr') \<Rightarrow> (Inl e, w', tr')
      | (Inr u, w', tr') \<Rightarrow> fifo_deliver ws_send cs queue w' tr')"

definition fifo_tick ::
  "('c set \<Rightarrow> 'c list) \<Rightarrow> ('c, 'w) transport \<Rightarrow> 'c hub \<Rightarrow> 'w \<Rightarrow> ((exn + unit) \<times> 'w \<times> 'c attempt list) \<times> 'c hub" where
  "fifo_tick set_iter ws_send h w =
     (case drainAll h of
        (queue, h') \<Rightarrow> (fifo_deliver ws_send (set_iter (get_clients h')) queue w [], h'))"

subsection \<open>Callers, observations and sample inputs\<close>

text \<open>A caller that invalidates the given names one after the other, up to the first exception.\<close>

fun add_updates :: "env \<Rightarrow> string list \<Rightarrow> 'c hub \<Rightarrow> (exn + unit) \<times> 'c hub" where
  "add_updates env [] h = (Inr (), h)"
| "add_updates env (name # names) h =
     (case add_update env name h of
        (Inl e, h') \<Rightarrow> (Inl e, h')
      | (Inr u, h') \<Rightarrow> add_updates env names h')"

text \<open>The entry that \<^verbatim>\<open>add_update(name)\<close> appends when it returns.\<close>

definition queued_entry :: "env \<Rightarrow> string \<Rightarrow> message option" where
  "queued_entry env name =
     (case map_of update_cases name of
        Some producer \<Rightarrow> (case producer env of Inl e \<Rightarrow> None | Inr m \<Rightarrow> Some m)
      | None \<Rightarrow> None)"

text \<open>Who was written what, outcomes left out.\<close>

definition attempted :: "'c attempt list \<Rightarrow> ('c \<times> message) list" where
  "attempted tr = map (\<lambda>(client, message, outcome). (client, message)) tr"

text \<open>
  The writes a tick makes when no write raises out of it: entry by entry in the order of
  insertion, nothing for \<^verbatim>\<open>None\<close>, and for a message one write per client.
\<close>

definition fan_out :: "'c list \<Rightarrow> message option list \<Rightarrow> ('c \<times> message) list" where
  "fan_out cs entries =
     concat (map (\<lambda>entry. case entry of None \<Rightarrow> [] | Some m \<Rightarrow> map (\<lambda>client. (client, m)) cs) entries)"

text \<open>
  Writing the given messages to the given clients one after the other, whatever the outcomes:
  the network and the record after the last write. It calls the transport itself, not the
  module's functions.
\<close>

fun write_all ::
  "('c, 'w) transport \<Rightarrow> ('c \<times> message) list \<Rightarrow> 'w \<Rightarrow> 'c attempt list \<Rightarrow> 'w \<times> 'c attempt list" where
  "write_all ws_send [] w tr = (w, tr)"
| "write_all ws_send ((client, m) # rest) w tr =
     (case ws_send w client m of
        (outcome, w') \<Rightarrow> write_all ws_send rest w' (tr @ [(client, m, outcome)]))"

text \<open>
  Answering the given frames of one connection one after the other: the network and the
  record after the last reply, when every frame is matched by a producer that returns and
  every reply is written without an exception; \<open>None\<close> otherwise. It too calls the
  transport itself.
\<close>

fun answer_all ::
  "('c, 'w) transport \<Rightarrow> 'c \<Rightarrow> (env \<times> string) list \<Rightarrow> 'w \<Rightarrow> 'c attempt list \<Rightarrow> ('w \<times> 'c attempt list) option" where
  "answer_all ws_send websocket [] w tr = Some (w, tr)"
| "answer_all ws_send websocket ((env, raw) # rest) w tr =
     (case consumer_match env (lower raw) of
        Inl e \<Rightarrow> None
      | Inr reply \<Rightarrow>
          (case ws_send w websocket reply of
             (Inl e, w') \<Rightarrow> None
           | (Inr u, w') \<Rightarrow> answer_all ws_send websocket rest w' (tr @ [(websocket, reply, Inr u)])))"

text \<open>In the specification's words: a queue entry that is a message whose data is null.\<close>

definition is_null_data_message :: "message option \<Rightarrow> bool" where
  "is_null_data_message entry = (case entry of None \<Rightarrow> False | Some m \<Rightarrow> mdata m = JNull)"

text \<open>
  Sample collaborators: no emulator, an empty party, and no Flask request in progress (so
  that \<^verbatim>\<open>request.args\<close> raises); and the same with a party that cannot be read.
\<close>

definition quiet_env :: env where
  "quiet_env =
     \<lparr>ext_trainer_to_dict = Inr [(''name'', JStr ''RED'')],
      ext_game_state_name = Inr ''OVERWORLD'',
      ext_get_items = Inr (JObj []),
      ext_get_party = Inr [],
      ext_encounter_log = Inr (JArr []),
      ext_shiny_log = Inr (JArr []),
      ext_encounter_rate = Inr (JNum 0),
      ext_total_stats = Inr (JObj []),
      ext_request_flag = Inl RuntimeError,
      ext_event_flags = [],
      ext_get_event_flag = (\<lambda>flag. Inr (JBool False)),
      ext_emulator_is_None = True,
      ext_context_to_dict = Inr JNull,
      ext_fps_history = Inr []\<rparr>"

definition broken_party_env :: env where
  "broken_party_env = quiet_env\<lparr>ext_get_party := Inl (OtherError ''MemoryError'')\<rparr>"

text \<open>
  Sample transports over clients numbered by \<open>nat\<close>, the network state counting the writes
  tried: one on which every write succeeds, and one on which the writes to one client raise
  a given exception.
\<close>

definition reliable :: "(nat, nat) transport" where
  "reliable w client message = (Inr (), Suc w)"

definition failing :: "exn \<Rightarrow> nat \<Rightarrow> (nat, nat) transport" where
  "failing e bad w client message = (if client = bad then Inl e else Inr (), Suc w)"

definition three_clients :: "nat hub" where
  "three_clients = \<lparr>updates = [Some (prep_data JNull ''emulator''), None, Some (prep_data JNull ''fps'')],
                     clients = {1, 2, 3}\<rparr>"

definition no_clients :: "nat hub" where
  "no_clients = \<lparr>updates = [], clients = {}\<rparr>"

section \<open>Properties\<close>

subsection \<open>The two pop loops\<close>

lemma rev_pop: "us \<noteq> [] \<Longrightarrow> rev us = last us # rev (butlast us)"
  by (induction us rule: rev_induct) simp_all

lemma get_updates_loop_rev: "get_updates_loop us acc = ([], acc @ rev us)"
proof (induction us acc rule: get_updates_loop.induct)
  case (1 us updates_list)
  show ?case
  proof (cases "us = []")
    case True
    then show ?thesis by (subst get_updates_loop.simps) simp
  next
    case False
    have "get_updates_loop us updates_list = get_updates_loop (butlast us) (updates_list @ [last us])"
      by (subst get_updates_loop.simps) (simp add: False)
    also have "\<dots> = ([], (updates_list @ [last us]) @ rev (butlast us))"
      using 1 False by simp
    also have "\<dots> = ([], updates_list @ rev us)"
      by (simp add: rev_pop[OF False])
    finally show ?thesis .
  qed
qed

lemma get_updates_rev: "get_updates h = (rev (updates h), h\<lparr>updates := []\<rparr>)"
  by (simp add: get_updates_def get_updates_loop_rev)

lemma producer_loop_fifo:
  "producer_loop ws_send cs messages w tr = fifo_deliver ws_send cs (rev messages) w tr"
proof (induction ws_send cs messages w tr rule: producer_loop.induct)
  case (1 ws_send cs messages w tr)
  show ?case
  proof (cases "messages = []")
    case True
    then show ?thesis by (subst producer_loop.simps) simp
  next
    case False
    have "fifo_deliver ws_send cs (rev messages) w tr =
          fifo_deliver ws_send cs (last messages # rev (butlast messages)) w tr"
      by (simp add: rev_pop[OF False])
    also have "\<dots> = producer_loop ws_send cs messages w tr"
      using False 1
      by (subst producer_loop.simps) (auto split: prod.splits sum.splits)
    finally show ?thesis by simp
  qed
qed

lemma producer_tick_fifo:
  "producer_tick set_iter ws_send h w =
     (fifo_deliver ws_send (set_iter (clients h)) (updates h) w [], h\<lparr>updates := []\<rparr>)"
  by (simp add: producer_tick_def get_updates_rev producer_loop_fifo get_clients_def)

subsection \<open>The broadcast order\<close>

text \<open>
  Claim C4. In every drain cycle the drained entries are handled, and so written to the
  clients, in the order in which they were enqueued: the pop loop of \<^verbatim>\<open>get_updates\<close>
  followed by the pop loop of \<^verbatim>\<open>producer_handler\<close> is the same function as draining an
  explicit FIFO buffer from its front. The equality covers the result of the tick, the state of
  the network, every write with its outcome and the handler left behind.
\<close>

theorem producer_tick_refines_fifo:
  "producer_tick set_iter ws_send h w = fifo_tick set_iter ws_send h w"
  by (simp add: producer_tick_fifo fifo_tick_def drainAll_def get_clients_def)

theorem producer_tick_refines_fifo_witness:
  "fifo_tick (\<lambda>S. [1, 2, 3]) reliable three_clients 0 =
     ((Inr (), 6,
       [(1, prep_data JNull ''emulator'', Inr ()),
        (2, prep_data JNull ''emulator'', Inr ()),
        (3, prep_data JNull ''emulator'', Inr ()),
        (1, prep_data JNull ''fps'', Inr ()),
        (2, prep_data JNull ''fps'', Inr ()),
        (3, prep_data JNull ''fps'', Inr ())]),
      \<lparr>updates = [], clients = {1, 2, 3}\<rparr>)
   \<and> producer_tick (\<lambda>S. [1, 2, 3]) reliable three_clients 0 =
       fifo_tick (\<lambda>S. [1, 2, 3]) reliable three_clients 0"
  using producer_tick_refines_fifo [of "\<lambda>S. [1, 2, 3]" reliable three_clients 0]
  by (simp add: fifo_tick_def drainAll_def get_clients_def three_clients_def reliable_def
      deliver_def send_def websocket_send_def)

subsection \<open>Failing writes in the broadcast loop\<close>

lemma attempted_write_all:
  "attempted (snd (write_all ws_send pairs w tr)) = attempted tr @ pairs"
  by (induction pairs arbitrary: w tr) (auto simp: attempted_def split: prod.splits)

lemma write_all_append:
  "write_all ws_send (ps @ qs) w tr =
     (case write_all ws_send ps w tr of (w', tr') \<Rightarrow> write_all ws_send qs w' tr')"
  by (induction ps arbitrary: w tr) (auto split: prod.splits)

lemma send_closed_only:
  assumes "\<forall>w c m. fst (ws_send w c m) = Inr () \<or> fst (ws_send w c m) = Inl ConnectionClosed"
  shows "send ws_send c m w tr =
           (Inr (), snd (ws_send w c m), tr @ [(c, m, fst (ws_send w c m))])"
proof -
  obtain r w1 where s: "ws_send w c m = (r, w1)" by (cases "ws_send w c m")
  with assms have "r = Inr () \<or> r = Inl ConnectionClosed"
    by (metis fst_conv)
  with s show ?thesis
    by (auto simp: send_def websocket_send_def)
qed

lemma send_to_clients_closed_only:
  assumes "\<forall>w c m. fst (ws_send w c m) = Inr () \<or> fst (ws_send w c m) = Inl ConnectionClosed"
  shows "send_to_clients ws_send cs m w tr =
           (case write_all ws_send (map (\<lambda>client. (client, m)) cs) w tr of
              (w', tr') \<Rightarrow> (Inr (), w', tr'))"
proof (induction cs arbitrary: w tr)
  case Nil
  then show ?case by simp
next
  case (Cons c cs)
  show ?case
    by (simp add: send_closed_only[OF assms] Cons.IH split: prod.splits)
qed

lemma fifo_deliver_closed_only:
  assumes "\<forall>w c m. fst (ws_send w c m) = Inr () \<or> fst (ws_send w c m) = Inl ConnectionClosed"
  shows "fifo_deliver ws_send cs queue w tr =
           (case write_all ws_send (fan_out cs queue) w tr of (w', tr') \<Rightarrow> (Inr (), w', tr'))"
proof (induction queue arbitrary: w tr)
  case Nil
  then show ?case by (simp add: fan_out_def)
next
  case (Cons entry queue)
  have split_fan_out: "fan_out cs (entry # queue) = fan_out cs [entry] @ fan_out cs queue"
    by (simp add: fan_out_def)
  show ?case
  proof (cases entry)
    case None
    then show ?thesis
      using Cons.IH[of w tr] by (simp add: deliver_def fan_out_def)
  next
    case (Some m)
    then have one: "fan_out cs [entry] = map (\<lambda>client. (client, m)) cs"
      by (simp add: fan_out_def)
    obtain w1 tr1 where 1: "write_all ws_send (map (\<lambda>client. (client, m)) cs) w tr = (w1, tr1)"
      by (cases "write_all ws_send (map (\<lambda>client. (client, m)) cs) w tr")
    then have "send_to_clients ws_send cs m w tr = (Inr (), w1, tr1)"
      by (simp add: send_to_clients_closed_only[OF assms])
    with Some have "fifo_deliver ws_send cs (entry # queue) w tr = fifo_deliver ws_send cs queue w1 tr1"
      by (simp add: deliver_def)
    also have "\<dots> = (case write_all ws_send (fan_out cs queue) w1 tr1 of (w', tr') \<Rightarrow> (Inr (), w', tr'))"
      by (rule Cons.IH)
    also have "\<dots> = (case write_all ws_send (fan_out cs (entry # queue)) w tr of
                        (w', tr') \<Rightarrow> (Inr (), w', tr'))"
      unfolding split_fan_out write_all_append one 1 by simp
    finally show ?thesis .
  qed
qed

text \<open>
  Claim C1, as the code has it. \<^verbatim>\<open>send\<close> catches \<^verbatim>\<open>websockets.ConnectionClosed\<close> and
  nothing else, and it does not touch the client set: a write that raises
  \<^verbatim>\<open>ConnectionClosed\<close> has been made on the transport, and \<^verbatim>\<open>send\<close> returns normally
  after it. So on a transport whose writes fail by \<^verbatim>\<open>ConnectionClosed\<close> only, a tick
  returns normally; the network and the record of writes it leaves are those of writing every
  drained message to every client of the set, entry by entry in the order of insertion and
  failed writes included; and the client set is as it was: the failing client stays registered.
\<close>

theorem connection_closed_is_passed_over:
  assumes "\<forall>w c m. fst (ws_send w c m) = Inr () \<or> fst (ws_send w c m) = Inl ConnectionClosed"
  shows "producer_tick set_iter ws_send h w =
           (case write_all ws_send (fan_out (set_iter (clients h)) (updates h)) w [] of
              (w', tr) \<Rightarrow> ((Inr (), w', tr), h\<lparr>updates := []\<rparr>))
       \<and> attempted (snd (write_all ws_send (fan_out (set_iter (clients h)) (updates h)) w [])) =
           fan_out (set_iter (clients h)) (updates h)
       \<and> (fst (ws_send w0 c m) = Inl ConnectionClosed \<longrightarrow>
            send ws_send c m w0 tr0 = (Inr (), snd (ws_send w0 c m), tr0 @ [(c, m, Inl ConnectionClosed)]))"
proof -
  have "send ws_send c m w0 tr0 = (Inr (), snd (ws_send w0 c m), tr0 @ [(c, m, Inl ConnectionClosed)])"
    if "fst (ws_send w0 c m) = Inl ConnectionClosed"
    using that send_closed_only[OF assms, of c m w0 tr0] by simp
  moreover have "producer_tick set_iter ws_send h w =
           (case write_all ws_send (fan_out (set_iter (clients h)) (updates h)) w [] of
              (w', tr) \<Rightarrow> ((Inr (), w', tr), h\<lparr>updates := []\<rparr>))"
    by (simp add: producer_tick_fifo fifo_deliver_closed_only[OF assms] split: prod.splits)
  moreover have "attempted (snd (write_all ws_send (fan_out (set_iter (clients h)) (updates h)) w [])) =
           fan_out (set_iter (clients h)) (updates h)"
    using attempted_write_all[of ws_send "fan_out (set_iter (clients h)) (updates h)" w "[]"]
    by (simp add: attempted_def)
  ultimately show ?thesis by blast
qed

lemma three_clients_fan_out:
  "fan_out [1, 2, 3] (updates three_clients) =
     [(1::nat, prep_data JNull ''emulator''), (2, prep_data JNull ''emulator''),
      (3, prep_data JNull ''emulator''), (1, prep_data JNull ''fps''),
      (2, prep_data JNull ''fps''), (3, prep_data JNull ''fps'')]"
  by (simp add: fan_out_def three_clients_def)

theorem connection_closed_is_passed_over_witness:
  "(\<forall>w c m. fst (failing ConnectionClosed 2 w c m) = Inr ()
            \<or> fst (failing ConnectionClosed 2 w c m) = Inl ConnectionClosed)
   \<and> producer_tick (\<lambda>S. [1, 2, 3]) (failing ConnectionClosed 2) three_clients 0 =
       ((Inr (), 6,
         [(1, prep_data JNull ''emulator'', Inr ()),
          (2, prep_data JNull ''emulator'', Inl ConnectionClosed),
          (3, prep_data JNull ''emulator'', Inr ()),
          (1, prep_data JNull ''fps'', Inr ()),
          (2, prep_data JNull ''fps'', Inl ConnectionClosed),
          (3, prep_data JNull ''fps'', Inr ())]),
        \<lparr>updates = [], clients = {1, 2, 3}\<rparr>)
   \<and> send (failing ConnectionClosed 2) 2 (prep_data JNull ''fps'') 4 [] =
       (Inr (), 5, [(2, prep_data JNull ''fps'', Inl ConnectionClosed)])"
proof -
  have closed_only: "\<forall>w c m. fst (failing ConnectionClosed 2 w c m) = Inr ()
            \<or> fst (failing ConnectionClosed 2 w c m) = Inl ConnectionClosed"
    by (simp add: failing_def)
  note t = connection_closed_is_passed_over [OF closed_only, where set_iter = "\<lambda>S. [1, 2, 3]"
      and h = three_clients and w = 0 and c = 2 and m = "prep_data JNull ''fps''" and ?w0.0 = 4
      and ?tr0.0 = "[]"]
  have closed: "failing ConnectionClosed 2 4 2 (prep_data JNull ''fps'') = (Inl ConnectionClosed, 5)"
    by (simp add: failing_def)
  have wa: "write_all (failing ConnectionClosed 2) (fan_out [1, 2, 3] (updates three_clients)) 0 [] =
       (6,
        [(1, prep_data JNull ''emulator'', Inr ()),
         (2, prep_data JNull ''emulator'', Inl ConnectionClosed),
         (3, prep_data JNull ''emulator'', Inr ()),
         (1, prep_data JNull ''fps'', Inr ()),
         (2, prep_data JNull ''fps'', Inl ConnectionClosed),
         (3, prep_data JNull ''fps'', Inr ())])"
    unfolding three_clients_fan_out by (simp add: failing_def)
  have "producer_tick (\<lambda>S. [1, 2, 3]) (failing ConnectionClosed 2) three_clients 0 =
       ((Inr (), 6,
         [(1, prep_data JNull ''emulator'', Inr ()),
          (2, prep_data JNull ''emulator'', Inl ConnectionClosed),
          (3, prep_data JNull ''emulator'', Inr ()),
          (1, prep_data JNull ''fps'', Inr ()),
          (2, prep_data JNull ''fps'', Inl ConnectionClosed),
          (3, prep_data JNull ''fps'', Inr ())]),
        \<lparr>updates = [], clients = {1, 2, 3}\<rparr>)"
    using t [THEN conjunct1] unfolding wa
    by (simp add: three_clients_def)
  moreover have "send (failing ConnectionClosed 2) 2 (prep_data JNull ''fps'') 4 [] =
       (Inr (), 5, [(2, prep_data JNull ''fps'', Inl ConnectionClosed)])"
    using t [THEN conjunct2, THEN conjunct2]
    by (simp add: closed)
  ultimately show ?thesis using closed_only by blast
qed

text \<open>
  Claim C1 as stated fails twice. With three clients of which the second is closed, the tick
  passes the failure over and the second client is still in the client set afterwards. And
  when the write to the second client raises anything else (here a timeout), the exception
  leaves the tick: the third client is written nothing, and the entries drained with the
  first are gone from the queue.
\<close>

theorem failed_write_counterexample:
  "2 \<in> get_clients (snd (producer_tick (\<lambda>S. [1, 2, 3]) (failing ConnectionClosed 2) three_clients 0))
   \<and> producer_tick (\<lambda>S. [1, 2, 3]) (failing (OtherError ''TimeoutError'') 2) three_clients 0 =
       ((Inl (OtherError ''TimeoutError''), 2,
         [(1, prep_data JNull ''emulator'', Inr ()),
          (2, prep_data JNull ''emulator'', Inl (OtherError ''TimeoutError''))]),
        \<lparr>updates = [], clients = {1, 2, 3}\<rparr>)"
  by (simp add: producer_tick_fifo get_clients_def three_clients_def failing_def deliver_def
      send_def websocket_send_def)

subsection \<open>The update queue\<close>

lemma add_update_returns:
  "add_update env name h = (Inr u, h') \<Longrightarrow> h' = h\<lparr>updates := updates h @ [queued_entry env name]\<rparr>"
  by (auto simp: add_update_def queued_entry_def split: option.splits sum.splits)

lemma add_updates_returns:
  "add_updates env names h = (Inr u, h') \<Longrightarrow>
     h' = h\<lparr>updates := updates h @ map (queued_entry env) names\<rparr>"
proof (induction names arbitrary: h)
  case Nil
  then show ?case by simp
next
  case (Cons name names)
  obtain r h1 where 1: "add_update env name h = (r, h1)" by (cases "add_update env name h")
  with Cons.prems obtain v where r: "r = Inr v" and 2: "add_updates env names h1 = (Inr u, h')"
    by (cases r) auto
  from 1 r have "h1 = h\<lparr>updates := updates h @ [queued_entry env name]\<rparr>"
    by (simp add: add_update_returns)
  with Cons.IH[OF 2] show ?case by simp
qed

text \<open>
  Claim C3, as the code has it. After \<^verbatim>\<open>add_update(n1)\<close>, ..., \<^verbatim>\<open>add_update(nk)\<close> on an
  empty queue, none of which raised, the queue holds the k entries in the order of the
  calls, and \<^verbatim>\<open>get_updates()\<close> returns them in the opposite order, the last enqueued
  first, leaving the queue empty. (It is \<^verbatim>\<open>producer_handler\<close> that turns the list round
  again.)
\<close>

theorem get_updates_returns_newest_first:
  assumes "add_updates env names (h\<lparr>updates := []\<rparr>) = (Inr (), h')"
  shows "updates h' = map (queued_entry env) names
       \<and> get_updates h' = (rev (map (queued_entry env) names), h'\<lparr>updates := []\<rparr>)"
  using add_updates_returns[OF assms] by (simp add: get_updates_rev)

lemma two_updates:
  "add_updates quiet_env [''trainer'', ''party''] (no_clients\<lparr>updates := []\<rparr>) =
     (Inr (), no_clients\<lparr>updates :=
        [Some (prep_data (JObj [(''name'', JStr ''RED''), (''game_state'', JStr ''OVERWORLD'')]) ''trainer''),
         Some (prep_data (JArr []) ''party'')]\<rparr>)"
  by (simp add: add_update_def update_cases_def get_trainer_def get_party_def and_then_def
      quiet_env_def no_clients_def)

lemma two_entries:
  "map (queued_entry quiet_env) [''trainer'', ''party''] =
     [Some (prep_data (JObj [(''name'', JStr ''RED''), (''game_state'', JStr ''OVERWORLD'')]) ''trainer''),
      Some (prep_data (JArr []) ''party'')]"
  by (simp add: queued_entry_def update_cases_def get_trainer_def get_party_def and_then_def
      quiet_env_def)

theorem get_updates_returns_newest_first_witness:
  "get_updates (no_clients\<lparr>updates :=
        [Some (prep_data (JObj [(''name'', JStr ''RED''), (''game_state'', JStr ''OVERWORLD'')]) ''trainer''),
         Some (prep_data (JArr []) ''party'')]\<rparr>) =
     ([Some (prep_data (JArr []) ''party''),
       Some (prep_data (JObj [(''name'', JStr ''RED''), (''game_state'', JStr ''OVERWORLD'')]) ''trainer'')],
      no_clients)"
proof -
  note r = get_updates_returns_newest_first [OF two_updates]
  from r[unfolded two_entries] show ?thesis
    by (simp add: no_clients_def)
qed

text \<open>
  Claim C3 as stated fails: after \<^verbatim>\<open>add_update("trainer")\<close> and \<^verbatim>\<open>add_update("party")\<close>
  the list that \<^verbatim>\<open>get_updates()\<close> returns starts with the party message.
\<close>

theorem get_updates_order_counterexample:
  "fst (get_updates (snd (add_updates quiet_env [''trainer'', ''party''] no_clients))) =
     [Some (prep_data (JArr []) ''party''),
      Some (prep_data (JObj [(''name'', JStr ''RED''), (''game_state'', JStr ''OVERWORLD'')]) ''trainer'')]
   \<and> fst (get_updates (snd (add_updates quiet_env [''trainer'', ''party''] no_clients))) \<noteq>
       map (queued_entry quiet_env) [''trainer'', ''party'']"
  by (simp add: get_updates_rev add_update_def queued_entry_def update_cases_def get_trainer_def
      get_party_def and_then_def quiet_env_def no_clients_def prep_data_def)

text \<open>
  Claim C7, as the code has it. For a name that is none of the literals of the \<^verbatim>\<open>match\<close>,
  \<^verbatim>\<open>add_update\<close> returns normally and appends one entry, which is \<^verbatim>\<open>None\<close>: not a
  message, with neither a type nor data.
\<close>

theorem add_update_unrecognized_appends_None:
  assumes "name \<notin> fst ` set update_cases"
  shows "add_update env name h = (Inr (), h\<lparr>updates := updates h @ [None]\<rparr>)"
proof -
  from assms have "map_of update_cases name = None"
    by (simp add: map_of_eq_None_iff)
  then show ?thesis by (simp add: add_update_def)
qed

theorem add_update_unrecognized_appends_None_witness:
  "''bogus'' \<notin> fst ` set update_cases
   \<and> add_update quiet_env ''bogus'' no_clients = (Inr (), no_clients\<lparr>updates := [None]\<rparr>)"
proof -
  have unrecognized: "''bogus'' \<notin> fst ` set update_cases"
    by (simp add: update_cases_def)
  from add_update_unrecognized_appends_None [OF unrecognized, of quiet_env no_clients]
  show ?thesis using unrecognized by (simp add: no_clients_def)
qed

text \<open>
  Claim C7 as stated fails: the entry that \<^verbatim>\<open>add_update("bogus")\<close> leaves at the end of
  the queue is not a message whose data is null.
\<close>

theorem add_update_unrecognized_counterexample:
  "\<not> is_null_data_message (last (updates (snd (add_update quiet_env ''bogus'' no_clients))))"
  by (simp add: add_update_def update_cases_def is_null_data_message_def no_clients_def)

subsection \<open>The client set\<close>

text \<open>
  Claim C6, as the code has it. \<^verbatim>\<open>remove_client(c)\<close> for a client that is not in the set
  raises \<^verbatim>\<open>KeyError\<close> and leaves the handler as it was; after \<^verbatim>\<open>add_client(c)\<close>,
  \<^verbatim>\<open>remove_client(c)\<close> returns normally and \<^verbatim>\<open>get_clients()\<close> does not contain \<open>c\<close>.
\<close>

theorem remove_client_absent_raises:
  "(c \<notin> clients h \<longrightarrow> remove_client c h = (Inl KeyError, h))
   \<and> fst (remove_client c (add_client c h)) = Inr ()
   \<and> c \<notin> get_clients (snd (remove_client c (add_client c h)))"
  by (simp add: remove_client_def add_client_def get_clients_def)

theorem remove_client_absent_raises_witness:
  "(2::nat) \<notin> clients \<lparr>updates = [], clients = {1}\<rparr>
   \<and> remove_client 2 \<lparr>updates = [], clients = {1::nat}\<rparr> = (Inl KeyError, \<lparr>updates = [], clients = {1}\<rparr>)
   \<and> snd (remove_client 2 (add_client 2 \<lparr>updates = [], clients = {1::nat}\<rparr>)) = \<lparr>updates = [], clients = {1}\<rparr>"
  using remove_client_absent_raises [of "2::nat" "\<lparr>updates = [], clients = {1}\<rparr>"]
  by (simp add: remove_client_def add_client_def)

text \<open>
  Claim C6 as stated fails: on a handler without clients \<^verbatim>\<open>remove_client\<close> raises
  \<^verbatim>\<open>KeyError\<close>.
\<close>

theorem remove_client_absent_counterexample:
  "fst (remove_client (1::nat) no_clients) = Inl KeyError"
  by (simp add: remove_client_def no_clients_def)

subsection \<open>The read loop\<close>

lemma lower_char_idem: "lower_char (lower_char c) = lower_char c"
  by (auto simp: lower_char_def Let_def)

lemma lower_idem: "lower (lower s) = lower s"
  by (simp add: lower_def lower_char_idem)

lemma lower_PARTY: "lower ''PARTY'' = ''party''"
  by code_simp

lemma lower_party: "lower ''party'' = ''party''"
  by code_simp

lemma lower_pa: "lower ''pa'' = ''pa''"
  by code_simp

lemma lower_Hello: "lower ''Hello'' = ''hello''"
  by code_simp

lemma consumer_cases_first_match:
  "\<forall>(alternatives, producer) \<in> set consumer_cases. \<forall>message \<in> set alternatives.
     find (\<lambda>(alternatives, producer). message \<in> set alternatives) consumer_cases =
       Some (alternatives, producer)"
  by (simp add: consumer_cases_def)

lemma consumer_match_case:
  assumes "(alternatives, producer) \<in> set consumer_cases" "message \<in> set alternatives"
  shows "consumer_match env message = producer env"
  using consumer_cases_first_match assms by (fastforce simp: consumer_match_def)

lemma three_clients_less_first: "clients three_clients - {1} = {2, 3}"
  by (auto simp: three_clients_def)

lemma consumer_match_party: "consumer_match env ''party'' = get_party env"
  by (simp add: consumer_match_def consumer_cases_def)

lemma consumer_match_pa: "consumer_match env ''pa'' = get_party env"
  by (simp add: consumer_match_def consumer_cases_def)

lemma consumer_match_hello: "consumer_match env ''hello'' = Inl AttributeError"
  by (simp add: consumer_match_def consumer_cases_def unknown_reply_def
      WebsocketHandler_attributes_def)

lemma consumer_loop_first_raises:
  "consumer_match env (lower raw) = Inl e \<Longrightarrow>
     consumer_loop ws_send websocket ((env, raw) # rest) closing w tr = (e, w, tr)"
  by simp

lemma consumer_handler_hub:
  "snd (consumer_handler ws_send websocket inbound closing h w) =
     h\<lparr>clients := clients h - {websocket}\<rparr>"
  by (simp add: consumer_handler_def Let_def remove_client_def add_client_def
      split: prod.splits)

lemma consumer_handler_result:
  "consumer_loop ws_send websocket inbound closing w [] = (e, w', tr) \<Longrightarrow>
     consumer_handler ws_send websocket inbound closing h w =
       ((if is_Exception e then Inr () else Inl e, w', tr), h\<lparr>clients := clients h - {websocket}\<rparr>)"
  by (simp add: consumer_handler_def Let_def remove_client_def add_client_def)

lemma lower_TR: "lower ''TR'' = ''tr''"
  by code_simp

lemma lower_alphabet: "lower ''ABCDEFGHIJKLMNOPQRSTUVWXYZ'' = ''abcdefghijklmnopqrstuvwxyz''"
  by code_simp

lemma answer_all_loop:
  "answer_all ws_send websocket pre w tr = Some (w1, tr1) \<Longrightarrow>
     consumer_loop ws_send websocket (pre @ rest) closing w tr =
       consumer_loop ws_send websocket rest closing w1 tr1"
proof (induction pre arbitrary: w tr)
  case Nil
  then show ?case by simp
next
  case (Cons frame pre)
  obtain env raw where frame: "frame = (env, raw)" by (cases frame)
  from Cons.prems frame obtain reply where m: "consumer_match env (lower raw) = Inr reply"
    by (cases "consumer_match env (lower raw)") auto
  obtain r w2 where s: "ws_send w websocket reply = (r, w2)"
    by (cases "ws_send w websocket reply")
  from Cons.prems frame m s obtain u where r: "r = Inr u"
    by (cases r) auto
  from Cons.prems frame m s r
  have "answer_all ws_send websocket pre w2 (tr @ [(websocket, reply, Inr u)]) = Some (w1, tr1)"
    by simp
  from Cons.IH[OF this] frame m s r show ?case
    by (simp add: websocket_send_def)
qed

lemma answer_all_replies:
  "answer_all ws_send websocket pre w tr = Some (w1, tr1) \<Longrightarrow>
     map (\<lambda>(client, m, outcome). (client, Inr m, outcome)) tr1 =
       map (\<lambda>(client, m, outcome). (client, Inr m, outcome)) tr @
       map (\<lambda>(env, raw). (websocket, consumer_match env (lower raw), Inr ())) pre"
proof (induction pre arbitrary: w tr)
  case Nil
  then show ?case by simp
next
  case (Cons frame pre)
  obtain env raw where frame: "frame = (env, raw)" by (cases frame)
  from Cons.prems frame obtain reply where m: "consumer_match env (lower raw) = Inr reply"
    by (cases "consumer_match env (lower raw)") auto
  obtain r w2 where s: "ws_send w websocket reply = (r, w2)"
    by (cases "ws_send w websocket reply")
  from Cons.prems frame m s obtain u where r: "r = Inr u"
    by (cases r) auto
  from Cons.prems frame m s r
  have "answer_all ws_send websocket pre w2 (tr @ [(websocket, reply, Inr u)]) = Some (w1, tr1)"
    by simp
  from Cons.IH[OF this] frame m show ?case
    by simp
qed

lemma consumer_loop_raising_frame:
  "consumer_match env (lower raw) = Inl e \<Longrightarrow>
     consumer_loop ws_send websocket (pre @ (env, raw) # rest) closing w tr =
       consumer_loop ws_send websocket pre e w tr"
  by (induction pre arbitrary: w tr) (auto split: sum.splits prod.splits)

lemma consumer_loop_matched_frame:
  "consumer_match env (lower raw) = Inr m \<Longrightarrow>
     consumer_loop ws_send websocket ((env, raw) # rest) closing w tr =
       (case ws_send w websocket m of
          (Inl e, w2) \<Rightarrow> (e, w2, tr @ [(websocket, m, Inl e)])
        | (Inr u, w2) \<Rightarrow> consumer_loop ws_send websocket rest closing w2 (tr @ [(websocket, m, Inr u)]))"
  by (simp add: websocket_send_def split: prod.splits sum.splits)

lemma consumer_handler_of_loop:
  "consumer_handler ws_send websocket inbound closing h w =
     (case consumer_loop ws_send websocket inbound closing w [] of
        (e, w', tr) \<Rightarrow>
          ((if is_Exception e then Inr () else Inl e, w', tr), h\<lparr>clients := clients h - {websocket}\<rparr>))"
  by (simp add: consumer_handler_def Let_def remove_client_def add_client_def split: prod.splits)

lemma lower_frame_same_loop:
  "consumer_loop ws_send websocket (pre @ (env, lower x) # rest) closing w tr =
     consumer_loop ws_send websocket (pre @ (env, x) # rest) closing w tr"
  by (induction pre arbitrary: w tr) (auto simp: lower_idem split: sum.splits prod.splits)

lemma party_message_type: "get_party env = Inr m \<Longrightarrow> mtype m = ''party''"
  by (auto simp: get_party_def and_then_def prep_data_def split: sum.splits)

lemma party_frames:
  "x \<in> set [''PARTY'', ''party'', ''pa''] \<Longrightarrow> consumer_match env (lower x) = get_party env"
  by (auto simp: lower_PARTY lower_party lower_pa consumer_match_party consumer_match_pa)

text \<open>
  Claim C8. The read loop lower-cases every frame before it matches it, so a frame and its
  lower-case form are answered alike wherever they stand in the connection's input. And a
  frame \<^verbatim>\<open>PARTY\<close>, \<^verbatim>\<open>party\<close> or \<^verbatim>\<open>pa\<close>, reached after the frames before it were
  answered, is answered by one write to this client of the message that \<^verbatim>\<open>get_party\<close>
  returned, whose type is \<^verbatim>\<open>party\<close>: the read loop goes on from that write, and the
  handler of a connection that ends there returns with the write last in its record.
\<close>

theorem command_case_insensitive:
  "lower ''ABCDEFGHIJKLMNOPQRSTUVWXYZ'' = ''abcdefghijklmnopqrstuvwxyz''
   \<and> lower (lower x) = lower x
   \<and> consumer_handler ws_send websocket (pre @ (env, lower x) # rest) closing h w =
       consumer_handler ws_send websocket (pre @ (env, x) # rest) closing h w
   \<and> (x \<in> set [''PARTY'', ''party'', ''pa''] \<and> get_party env = Inr m
        \<and> answer_all ws_send websocket pre w [] = Some (w1, tr1) \<longrightarrow>
        mtype m = ''party''
        \<and> consumer_loop ws_send websocket (pre @ (env, x) # rest) closing w [] =
            (case ws_send w1 websocket m of
               (Inl e, w2) \<Rightarrow> (e, w2, tr1 @ [(websocket, m, Inl e)])
             | (Inr u, w2) \<Rightarrow>
                 consumer_loop ws_send websocket rest closing w2 (tr1 @ [(websocket, m, Inr u)]))
        \<and> consumer_handler ws_send websocket (pre @ [(env, x)]) closing h w =
            (case ws_send w1 websocket m of
               (Inl e, w2) \<Rightarrow>
                 ((if is_Exception e then Inr () else Inl e, w2, tr1 @ [(websocket, m, Inl e)]),
                  h\<lparr>clients := clients h - {websocket}\<rparr>)
             | (Inr u, w2) \<Rightarrow>
                 ((if is_Exception closing then Inr () else Inl closing, w2,
                   tr1 @ [(websocket, m, Inr u)]),
                  h\<lparr>clients := clients h - {websocket}\<rparr>)))"
proof -
  have same: "consumer_handler ws_send websocket (pre @ (env, lower x) # rest) closing h w =
       consumer_handler ws_send websocket (pre @ (env, x) # rest) closing h w"
    by (simp only: consumer_handler_of_loop lower_frame_same_loop)
  have party: "mtype m = ''party''
        \<and> consumer_loop ws_send websocket (pre @ (env, x) # rest) closing w [] =
            (case ws_send w1 websocket m of
               (Inl e, w2) \<Rightarrow> (e, w2, tr1 @ [(websocket, m, Inl e)])
             | (Inr u, w2) \<Rightarrow>
                 consumer_loop ws_send websocket rest closing w2 (tr1 @ [(websocket, m, Inr u)]))
        \<and> consumer_handler ws_send websocket (pre @ [(env, x)]) closing h w =
            (case ws_send w1 websocket m of
               (Inl e, w2) \<Rightarrow>
                 ((if is_Exception e then Inr () else Inl e, w2, tr1 @ [(websocket, m, Inl e)]),
                  h\<lparr>clients := clients h - {websocket}\<rparr>)
             | (Inr u, w2) \<Rightarrow>
                 ((if is_Exception closing then Inr () else Inl closing, w2,
                   tr1 @ [(websocket, m, Inr u)]),
                  h\<lparr>clients := clients h - {websocket}\<rparr>))"
    if x: "x \<in> set [''PARTY'', ''party'', ''pa'']" and m: "get_party env = Inr m"
      and pre: "answer_all ws_send websocket pre w [] = Some (w1, tr1)"
  proof -
    from x m have matched: "consumer_match env (lower x) = Inr m"
      by (simp only: party_frames)
    have loop: "consumer_loop ws_send websocket (pre @ (env, x) # rest') closing w [] =
            (case ws_send w1 websocket m of
               (Inl e, w2) \<Rightarrow> (e, w2, tr1 @ [(websocket, m, Inl e)])
             | (Inr u, w2) \<Rightarrow>
                 consumer_loop ws_send websocket rest' closing w2 (tr1 @ [(websocket, m, Inr u)]))"
      for rest'
      by (simp only: answer_all_loop[OF pre] consumer_loop_matched_frame[OF matched])
    have "consumer_handler ws_send websocket (pre @ [(env, x)]) closing h w =
            (case ws_send w1 websocket m of
               (Inl e, w2) \<Rightarrow>
                 ((if is_Exception e then Inr () else Inl e, w2, tr1 @ [(websocket, m, Inl e)]),
                  h\<lparr>clients := clients h - {websocket}\<rparr>)
             | (Inr u, w2) \<Rightarrow>
                 ((if is_Exception closing then Inr () else Inl closing, w2,
                   tr1 @ [(websocket, m, Inr u)]),
                  h\<lparr>clients := clients h - {websocket}\<rparr>))"
      by (simp add: consumer_handler_of_loop loop[of "[]"] split: prod.splits sum.splits)
    with party_message_type[OF m] loop[of rest] show ?thesis by blast
  qed
  from same party show ?thesis
    by (simp only: lower_alphabet lower_idem) blast
qed

lemma trainer_answered:
  "answer_all reliable 1 [(quiet_env, ''TR'')] 0 [] =
     Some (1, [(1, prep_data (JObj [(''name'', JStr ''RED''), (''game_state'', JStr ''OVERWORLD'')]) ''trainer'',
                Inr ())])"
  by (simp add: lower_TR consumer_match_def consumer_cases_def get_trainer_def and_then_def
      quiet_env_def reliable_def)

lemma quiet_party: "get_party quiet_env = Inr (prep_data (JArr []) ''party'')"
  by (simp add: get_party_def and_then_def quiet_env_def)

theorem command_case_insensitive_witness:
  "consumer_handler reliable 1 [(quiet_env, ''TR''), (quiet_env, ''PARTY'')] ConnectionClosed
     three_clients 0 =
     ((Inr (), 2,
       [(1, prep_data (JObj [(''name'', JStr ''RED''), (''game_state'', JStr ''OVERWORLD'')]) ''trainer'',
         Inr ()),
        (1, prep_data (JArr []) ''party'', Inr ())]),
      three_clients\<lparr>clients := {2, 3}\<rparr>)
   \<and> mtype (prep_data (JArr []) ''party'') = ''party''"
proof -
  have x: "''PARTY'' \<in> set [''PARTY'', ''party'', ''pa'']"
    by simp
  note t = command_case_insensitive [where x = "''PARTY''" and env = quiet_env
      and m = "prep_data (JArr []) ''party''" and ws_send = reliable and websocket = 1
      and pre = "[(quiet_env, ''TR'')]" and w = 0 and ?w1.0 = 1
      and ?tr1.0 = "[(1, prep_data (JObj [(''name'', JStr ''RED''), (''game_state'', JStr ''OVERWORLD'')]) ''trainer'', Inr ())]"
      and closing = ConnectionClosed and h = three_clients and rest = "[]"]
  from t x quiet_party trainer_answered
  have party: "mtype (prep_data (JArr []) ''party'') = ''party''"
    and handler: "consumer_handler reliable 1 ([(quiet_env, ''TR'')] @ [(quiet_env, ''PARTY'')]) ConnectionClosed
       three_clients 0 =
      (case reliable 1 1 (prep_data (JArr []) ''party'') of
         (Inl e, w2) \<Rightarrow>
           ((if is_Exception e then Inr () else Inl e, w2,
             [(1, prep_data (JObj [(''name'', JStr ''RED''), (''game_state'', JStr ''OVERWORLD'')]) ''trainer'', Inr ())]
             @ [(1, prep_data (JArr []) ''party'', Inl e)]),
            three_clients\<lparr>clients := clients three_clients - {1}\<rparr>)
       | (Inr u, w2) \<Rightarrow>
           ((if is_Exception ConnectionClosed then Inr () else Inl ConnectionClosed, w2,
             [(1, prep_data (JObj [(''name'', JStr ''RED''), (''game_state'', JStr ''OVERWORLD'')]) ''trainer'', Inr ())]
             @ [(1, prep_data (JArr []) ''party'', Inr u)]),
            three_clients\<lparr>clients := clients three_clients - {1}\<rparr>))"
    by blast+
  have sent: "reliable 1 1 (prep_data (JArr []) ''party'') = (Inr (), 2)"
    by (simp add: reliable_def)
  from handler have "consumer_handler reliable 1 [(quiet_env, ''TR''), (quiet_env, ''PARTY'')] ConnectionClosed
     three_clients 0 =
     ((Inr (), 2,
       [(1, prep_data (JObj [(''name'', JStr ''RED''), (''game_state'', JStr ''OVERWORLD'')]) ''trainer'',
         Inr ()),
        (1, prep_data (JArr []) ''party'', Inr ())]),
      three_clients\<lparr>clients := {2, 3}\<rparr>)"
    unfolding sent three_clients_less_first by simp
  with party show ?thesis by (rule conjI[rotated])
qed

text \<open>
  Claim C9. Whatever a connection receives, \<^verbatim>\<open>consumer_handler\<close> leaves the list of
  updates exactly as it found it, and so does the pull endpoint \<^verbatim>\<open>/trainer\<close>. (The
  collaborators are values here: they are given no access to the handler.)
\<close>

theorem lookups_leave_queue:
  "updates (snd (consumer_handler ws_send websocket inbound closing h w)) = updates h
   \<and> snd (http_get_trainer env h) = h"
  by (simp add: consumer_handler_hub http_get_trainer_def)

theorem lookups_leave_queue_witness:
  "updates (snd (consumer_handler reliable 1 [(quiet_env, ''Trainer''), (quiet_env, ''pa'')]
               ConnectionClosed three_clients 0)) =
     [Some (prep_data JNull ''emulator''), None, Some (prep_data JNull ''fps'')]"
  using lookups_leave_queue [of reliable 1 "[(quiet_env, ''Trainer''), (quiet_env, ''pa'')]"
      ConnectionClosed three_clients 0]
  by (simp add: three_clients_def)

text \<open>
  Claim C2 is what the source sets out to do and misses. In \<^verbatim>\<open>case _\<close> the reply is built
  by \<^verbatim>\<open>websocket_handler.prep_data(...)\<close>, but \<^verbatim>\<open>prep_data\<close> is a function of the module,
  not an attribute of the handler: the lookup raises \<^verbatim>\<open>AttributeError\<close>, the
  \<^verbatim>\<open>except Exception\<close> of the read loop swallows it, and the \<^verbatim>\<open>finally\<close> block removes the
  client. For the frame \<^verbatim>\<open>Hello\<close> nothing is written to the client, no later frame is read,
  and the client is gone from the set.
\<close>

theorem unknown_command_gets_no_reply:
  "consumer_match quiet_env (lower ''Hello'') = Inl AttributeError
   \<and> consumer_handler reliable 1 [(quiet_env, ''Hello''), (quiet_env, ''party'')] ConnectionClosed
       three_clients 0 =
       ((Inr (), 0, []), three_clients\<lparr>clients := {2, 3}\<rparr>)"
proof -
  have 1: "consumer_match quiet_env (lower ''Hello'') = Inl AttributeError"
    by (simp add: lower_Hello consumer_match_hello)
  have "consumer_loop reliable 1 [(quiet_env, ''Hello''), (quiet_env, ''party'')] ConnectionClosed 0 [] =
          (AttributeError, 0, [])"
    by (rule consumer_loop_first_raises [OF 1])
  from consumer_handler_result [OF this, of three_clients]
  have "consumer_handler reliable 1 [(quiet_env, ''Hello''), (quiet_env, ''party'')] ConnectionClosed
          three_clients 0 = ((Inr (), 0, []), three_clients\<lparr>clients := {2, 3}\<rparr>)"
    by (simp only: three_clients_less_first is_Exception.simps if_True)
  with 1 show ?thesis by (rule conjI)
qed

text \<open>
  Claim C5, as the code has it. Nothing substitutes a message for a producer that raises.
  In \<^verbatim>\<open>add_update\<close> the exception reaches the caller and the queue is as it was. In the read
  loop, wherever the frame stands in the connection's input, the exception ends the loop as if
  the connection had failed with it in place of the frame: the handler returns what it
  returns for the frames before alone. So when the frames before were all answered, the
  network and the record of writes are those left by their replies, one genuine reply for each
  of them and none for the frame or for those behind it; the client is removed from the set, the
  queue is as it was, and the exception is swallowed if it derives from \<^verbatim>\<open>Exception\<close>.
\<close>

theorem producer_failure_is_not_substituted:
  "(map_of update_cases name = Some producer \<and> producer env = Inl e \<longrightarrow>
      add_update env name h = (Inl e, h))
   \<and> ((alternatives, producer') \<in> set consumer_cases \<and> lower raw \<in> set alternatives
        \<and> producer' env = Inl e' \<longrightarrow>
      consumer_handler ws_send websocket (pre @ (env, raw) # rest) closing h w =
        consumer_handler ws_send websocket pre e' h w
      \<and> (answer_all ws_send websocket pre w [] = Some (w1, tr1) \<longrightarrow>
           consumer_handler ws_send websocket (pre @ (env, raw) # rest) closing h w =
             ((if is_Exception e' then Inr () else Inl e', w1, tr1),
              h\<lparr>clients := clients h - {websocket}\<rparr>)
           \<and> map (\<lambda>(client, m, outcome). (client, Inr m, outcome)) tr1 =
               map (\<lambda>(env, raw). (websocket, consumer_match env (lower raw), Inr ())) pre))"
proof -
  have loop: "consumer_handler ws_send websocket (pre @ (env, raw) # rest) closing h w =
        consumer_handler ws_send websocket pre e' h w
      \<and> (answer_all ws_send websocket pre w [] = Some (w1, tr1) \<longrightarrow>
           consumer_handler ws_send websocket (pre @ (env, raw) # rest) closing h w =
             ((if is_Exception e' then Inr () else Inl e', w1, tr1),
              h\<lparr>clients := clients h - {websocket}\<rparr>)
           \<and> map (\<lambda>(client, m, outcome). (client, Inr m, outcome)) tr1 =
               map (\<lambda>(env, raw). (websocket, consumer_match env (lower raw), Inr ())) pre)"
    if "(alternatives, producer') \<in> set consumer_cases" "lower raw \<in> set alternatives"
      "producer' env = Inl e'"
  proof -
    from that have raises: "consumer_match env (lower raw) = Inl e'"
      by (simp add: consumer_match_case)
    have 1: "consumer_handler ws_send websocket (pre @ (env, raw) # rest) closing h w =
        consumer_handler ws_send websocket pre e' h w"
      by (simp only: consumer_handler_of_loop consumer_loop_raising_frame[OF raises])
    have 2: "consumer_handler ws_send websocket (pre @ (env, raw) # rest) closing h w =
             ((if is_Exception e' then Inr () else Inl e', w1, tr1),
              h\<lparr>clients := clients h - {websocket}\<rparr>)"
      if pre: "answer_all ws_send websocket pre w [] = Some (w1, tr1)"
    proof -
      have "consumer_loop ws_send websocket (pre @ (env, raw) # rest) closing w [] = (e', w1, tr1)"
        by (simp only: answer_all_loop[OF pre] consumer_loop_first_raises[OF raises])
      then show ?thesis
        by (simp add: consumer_handler_of_loop)
    qed
    have 3: "map (\<lambda>(client, m, outcome). (client, Inr m, outcome)) tr1 =
               map (\<lambda>(env, raw). (websocket, consumer_match env (lower raw), Inr ())) pre"
      if pre: "answer_all ws_send websocket pre w [] = Some (w1, tr1)"
      using answer_all_replies[OF pre] by simp
    from 1 2 3 show ?thesis by blast
  qed
  have "add_update env name h = (Inl e, h)"
    if "map_of update_cases name = Some producer" "producer env = Inl e"
    using that by (simp add: add_update_def)
  with loop show ?thesis
    by blast
qed

lemma broken_party: "get_party broken_party_env = Inl (OtherError ''MemoryError'')"
  by (simp add: get_party_def and_then_def broken_party_env_def)

theorem producer_failure_is_not_substituted_witness:
  "add_update broken_party_env ''party'' three_clients = (Inl (OtherError ''MemoryError''), three_clients)
   \<and> consumer_handler reliable 1
       [(quiet_env, ''TR''), (broken_party_env, ''PARTY''), (quiet_env, ''party'')]
       ConnectionClosed three_clients 0 =
       ((Inr (), 1,
         [(1, prep_data (JObj [(''name'', JStr ''RED''), (''game_state'', JStr ''OVERWORLD'')]) ''trainer'',
           Inr ())]),
        three_clients\<lparr>clients := {2, 3}\<rparr>)"
proof -
  have 1: "map_of update_cases ''party'' = Some get_party"
    by (simp add: update_cases_def)
  have 2: "([''party'', ''pa''], get_party) \<in> set consumer_cases"
    by (simp add: consumer_cases_def)
  have 3: "lower ''PARTY'' \<in> set [''party'', ''pa'']"
    by (simp add: lower_PARTY)
  note t = producer_failure_is_not_substituted [where name = "''party''" and producer = get_party
      and env = broken_party_env and e = "OtherError ''MemoryError''" and h = three_clients
      and alternatives = "[''party'', ''pa'']" and producer' = get_party and raw = "''PARTY''"
      and e' = "OtherError ''MemoryError''" and ws_send = reliable and websocket = 1
      and pre = "[(quiet_env, ''TR'')]" and rest = "[(quiet_env, ''party'')]"
      and closing = ConnectionClosed and w = 0 and ?w1.0 = 1
      and ?tr1.0 = "[(1, prep_data (JObj [(''name'', JStr ''RED''), (''game_state'', JStr ''OVERWORLD'')]) ''trainer'', Inr ())]"]
  from t 1 broken_party
  have a: "add_update broken_party_env ''party'' three_clients =
             (Inl (OtherError ''MemoryError''), three_clients)"
    by blast
  from t 2 3 broken_party trainer_answered
  have "consumer_handler reliable 1 ([(quiet_env, ''TR'')] @ (broken_party_env, ''PARTY'') # [(quiet_env, ''party'')])
          ConnectionClosed three_clients 0 =
        ((if is_Exception (OtherError ''MemoryError'') then Inr () else Inl (OtherError ''MemoryError''),
          1, [(1, prep_data (JObj [(''name'', JStr ''RED''), (''game_state'', JStr ''OVERWORLD'')]) ''trainer'', Inr ())]),
         three_clients\<lparr>clients := clients three_clients - {1}\<rparr>)"
    by blast
  then have "consumer_handler reliable 1
       [(quiet_env, ''TR''), (broken_party_env, ''PARTY''), (quiet_env, ''party'')]
       ConnectionClosed three_clients 0 =
       ((Inr (), 1,
         [(1, prep_data (JObj [(''name'', JStr ''RED''), (''game_state'', JStr ''OVERWORLD'')]) ''trainer'',
           Inr ())]),
        three_clients\<lparr>clients := {2, 3}\<rparr>)"
    unfolding three_clients_less_first by simp
  with a show ?thesis by (rule conjI)
qed

text \<open>
  Claim C5 as stated fails: with a party that cannot be read, \<^verbatim>\<open>add_update("party")\<close>
  raises and enqueues nothing, and the frame \<^verbatim>\<open>party\<close> is written no reply at all, with
  null data or otherwise.
\<close>

theorem producer_failure_counterexample:
  "add_update broken_party_env ''party'' no_clients = (Inl (OtherError ''MemoryError''), no_clients)
   \<and> fst (consumer_handler reliable 1 [(broken_party_env, ''party'')] ConnectionClosed no_clients 0) =
       (Inr (), 0, [])"
  by (simp add: add_update_def update_cases_def broken_party lower_party consumer_match_party
      consumer_handler_def Let_def remove_client_def add_client_def no_clients_def)

subsection \<open>\<^verbatim>\<open>None\<close> entries in the broadcast loop\<close>

lemma fifo_deliver_skips_None:
  "fifo_deliver ws_send cs (filter (\<lambda>entry. entry \<noteq> None) queue) w tr =
     fifo_deliver ws_send cs queue w tr"
  by (induction queue arbitrary: w tr) (auto simp: deliver_def split: prod.splits sum.splits)

lemma send_attempts:
  "set (snd (snd (send ws_send c m w tr))) = insert (c, m, fst (ws_send w c m)) (set tr)"
  by (auto simp: send_def websocket_send_def split: prod.splits sum.splits)

lemma send_to_clients_attempts:
  "\<forall>a \<in> set (snd (snd (send_to_clients ws_send cs m w tr))). a \<in> set tr \<or> fst (snd a) = m"
proof (induction cs arbitrary: w tr)
  case Nil
  then show ?case by simp
next
  case (Cons c cs)
  obtain r w1 tr1 where s: "send ws_send c m w tr = (r, w1, tr1)"
    by (cases "send ws_send c m w tr") auto
  with send_attempts[of ws_send c m w tr]
  have 1: "set tr1 = insert (c, m, fst (ws_send w c m)) (set tr)" by simp
  show ?case
  proof (cases r)
    case (Inl e)
    with s 1 show ?thesis by auto
  next
    case (Inr u)
    with s 1 Cons.IH[of w1 tr1] show ?thesis by auto
  qed
qed

lemma fifo_deliver_attempts:
  "\<forall>a \<in> set (snd (snd (fifo_deliver ws_send cs queue w tr))).
     a \<in> set tr \<or> Some (fst (snd a)) \<in> set queue"
proof (induction queue arbitrary: w tr)
  case Nil
  then show ?case by simp
next
  case (Cons entry queue)
  show ?case
  proof (cases entry)
    case None
    with Cons.IH[of w tr] show ?thesis by (auto simp: deliver_def)
  next
    case (Some m)
    obtain r w1 tr1 where s: "send_to_clients ws_send cs m w tr = (r, w1, tr1)"
      by (cases "send_to_clients ws_send cs m w tr") auto
    with send_to_clients_attempts[of ws_send cs m w tr]
    have 1: "\<forall>a \<in> set tr1. a \<in> set tr \<or> fst (snd a) = m" by simp
    show ?thesis
    proof (cases r)
      case (Inl e)
      with Some s 1 show ?thesis by (auto simp: deliver_def)
    next
      case (Inr u)
      with Some s 1 Cons.IH[of w1 tr1] show ?thesis by (fastforce simp: deliver_def)
    qed
  qed
qed

text \<open>
  Claim C10. A tick makes the same writes, with the same outcomes and the same result, as it
  would on the queue with its \<^verbatim>\<open>None\<close> entries taken out; every message it writes is an
  entry of the queue; and after \<^verbatim>\<open>add_update\<close> of an unrecognized name on an empty queue,
  the tick writes nothing to anybody.
\<close>

theorem None_is_never_written:
  "fst (producer_tick set_iter ws_send h w) =
     fst (producer_tick set_iter ws_send (h\<lparr>updates := filter (\<lambda>entry. entry \<noteq> None) (updates h)\<rparr>) w)
   \<and> (\<forall>(client, m, outcome) \<in> set (snd (snd (fst (producer_tick set_iter ws_send h w)))).
         Some m \<in> set (updates h))
   \<and> (name \<notin> fst ` set update_cases \<longrightarrow>
        fst (producer_tick set_iter ws_send (snd (add_update env name (h\<lparr>updates := []\<rparr>))) w) =
          (Inr (), w, []))"
proof -
  have "map_of update_cases name = None" if "name \<notin> fst ` set update_cases"
    using that by (simp add: map_of_eq_None_iff)
  then have "name \<notin> fst ` set update_cases \<longrightarrow>
        fst (producer_tick set_iter ws_send (snd (add_update env name (h\<lparr>updates := []\<rparr>))) w) =
          (Inr (), w, [])"
    by (simp add: add_update_def producer_tick_fifo deliver_def)
  moreover have "\<forall>(client, m, outcome) \<in> set (snd (snd (fst (producer_tick set_iter ws_send h w)))).
         Some m \<in> set (updates h)"
    using fifo_deliver_attempts[of ws_send "set_iter (clients h)" "updates h" w "[]"]
    by (auto simp: producer_tick_fifo)
  moreover have "fst (producer_tick set_iter ws_send h w) =
     fst (producer_tick set_iter ws_send (h\<lparr>updates := filter (\<lambda>entry. entry \<noteq> None) (updates h)\<rparr>) w)"
    unfolding producer_tick_fifo using fifo_deliver_skips_None[of ws_send _ "updates h" w "[]"]
    by simp
  ultimately show ?thesis
    by blast
qed

theorem None_is_never_written_witness:
  "''bogus'' \<notin> fst ` set update_cases
   \<and> fst (producer_tick (\<lambda>S. [1, 2, 3]) reliable
           (snd (add_update quiet_env ''bogus'' (three_clients\<lparr>updates := []\<rparr>))) 0) = (Inr (), 0, [])
   \<and> fst (producer_tick (\<lambda>S. [1, 2, 3]) reliable three_clients 0) =
       fst (producer_tick (\<lambda>S. [1, 2, 3]) reliable
              (three_clients\<lparr>updates := [Some (prep_data JNull ''emulator''), Some (prep_data JNull ''fps'')]\<rparr>) 0)"
proof -
  have unrecognized: "''bogus'' \<notin> fst ` set update_cases"
    by (simp add: update_cases_def)
  have filtered: "filter (\<lambda>entry. entry \<noteq> None) (updates three_clients) =
      [Some (prep_data JNull ''emulator''), Some (prep_data JNull ''fps'')]"
    by (simp add: three_clients_def)
  note t = None_is_never_written [of "\<lambda>S. [1, 2, 3]" reliable three_clients 0 "''bogus''" quiet_env]
  from t unrecognized
  have "fst (producer_tick (\<lambda>S. [1, 2, 3]) reliable
           (snd (add_update quiet_env ''bogus'' (three_clients\<lparr>updates := []\<rparr>))) 0) = (Inr (), 0, [])"
    by blast
  moreover from t
  have "fst (producer_tick (\<lambda>S. [1, 2, 3]) reliable three_clients 0) =
       fst (producer_tick (\<lambda>S. [1, 2, 3]) reliable
              (three_clients\<lparr>updates := [Some (prep_data JNull ''emulator''), Some (prep_data JNull ''fps'')]\<rparr>) 0)"
    unfolding filtered by (rule conjunct1)
  ultimately show ?thesis
    using unrecognized by blast
qed

end
